theory Spec2Isabelle
  imports Main "HOL-Library.AList" "HOL-Library.Sublist"
begin

section \<open>Python values, exceptions and outcomes\<close>

text \<open>
  The controller of \<^verbatim>\<open>src/kyco/controller.py\<close> is a Python object whose methods mutate its
  dictionaries and may raise. A call is modelled as a function from the state before the
  call to an outcome: either the call returns a value, or it raises an exception; both
  carry the state reached at that point, because a Python exception does not undo the
  mutations made before it.
\<close>

datatype exn =
    KeyError
  | ValueError
  | AttributeError
  | Re_error
  | OSError
  | FileNotFoundError
  | KycoSwitchOfflineException
  | Exception string

datatype ('a, 's) result = Returns 'a 's | Raises exn 's

text \<open>Objects are referred to by address; two objects are distinct when their addresses are.\<close>

type_synonym ref = nat

datatype pyval = PyNone | PyBool bool | PyStr string | PyConnection ref

text \<open>\<^verbatim>\<open>KycoEvent\<close>: the attributes the controller reads are \<^verbatim>\<open>name\<close> and \<^verbatim>\<open>content\<close>.\<close>

record event =
  name :: string
  content :: "(string \<times> pyval) list"

section \<open>Connections and switches\<close>

text \<open>
  The classes \<^verbatim>\<open>Connection\<close> and \<^verbatim>\<open>Switch\<close> live in \<^verbatim>\<open>kyco.core.switch\<close>, which is not part of
  the sources at hand. Their attributes are taken from the data model of the specification:
  a Connection has an \<^verbatim>\<open>id = (ip, port)\<close>, an optional \<^verbatim>\<open>dpid\<close> and a lifecycle state; a Switch
  has a \<^verbatim>\<open>dpid\<close> and a reference to its current Connection. The field \<open>written\<close> records the
  byte strings written to the connection's socket, oldest first.
\<close>

type_synonym conn_id = "string \<times> nat"

datatype conn_state = NEW | HANDSHAKING | ESTABLISHED | CLOSING | CLOSED

record connection_obj =
  id_conn :: conn_id
  dpid :: "string option"
  state :: conn_state
  written :: "string list"

record switch_obj =
  dpid_switch :: string
  connection :: "ref option"

section \<open>NApps and listeners\<close>

text \<open>
  A listener is a callable. The listener table stores handles: the controller's own bound
  method \<^verbatim>\<open>self.new_connection\<close>, or a method of a NApp, identified by a value of type \<open>'l\<close>.
  Handles are compared with HOL equality where Python compares callables with \<^verbatim>\<open>==\<close>
  (\<^verbatim>\<open>list.remove\<close>). What a NApp method does when called is given by a parameter \<open>ext\<close> of the
  functions below; it acts on the part \<open>'w\<close> of the state that belongs to NApp code.
\<close>

datatype 'l listener = New_connection | NApp_method 'l

type_synonym 'l table = "(string \<times> 'l listener list) list"

text \<open>
  A NApp instance: its \<^verbatim>\<open>_listeners\<close> dictionary (in insertion order) and what \<^verbatim>\<open>start()\<close> and
  \<^verbatim>\<open>shutdown()\<close> do to the NApp's part of the state.
\<close>

record ('l, 'w) napp =
  napp_listeners :: "'l table"
  start :: "'w \<Rightarrow> (unit, 'w) result"
  shutdown :: "'w \<Rightarrow> (unit, 'w) result"

section \<open>The controller\<close>

text \<open>
  The attributes of \<^verbatim>\<open>Controller\<close> that the methods below read or write. \<^verbatim>\<open>connections\<close>,
  \<^verbatim>\<open>switches\<close> and \<^verbatim>\<open>napps\<close> are dictionaries used by key only, hence maps;
  \<^verbatim>\<open>events_listeners\<close> is iterated by \<^verbatim>\<open>notify_listeners\<close>, hence an association list in
  insertion order. \<open>heap\<close> holds the Connection objects that references denote and \<open>world\<close>
  the state owned by NApp code.
\<close>

record ('l, 'w) controller =
  connections :: "conn_id \<rightharpoonup> ref"
  events_listeners :: "'l table"
  napps :: "string \<rightharpoonup> ('l, 'w) napp"
  switches :: "string \<rightharpoonup> switch_obj"
  heap :: "ref \<Rightarrow> connection_obj"
  world :: 'w

subsection \<open>Registry lookups and removals\<close>

text \<open>
  \<^verbatim>\<open>get_switch_by_dpid\<close> and \<^verbatim>\<open>get_connection_by_id\<close> return the entry, or \<^verbatim>\<open>None\<close> on
  \<^verbatim>\<open>KeyError\<close>. A connection whose \<^verbatim>\<open>dpid\<close> is \<^verbatim>\<open>None\<close> is looked up under a key no switch is
  registered at.
\<close>

definition get_switch_by_dpid ::
  "('l, 'w) controller \<Rightarrow> string option \<Rightarrow> switch_obj option" where
  "get_switch_by_dpid self d = (case d of None \<Rightarrow> None | Some k \<Rightarrow> switches self k)"

definition get_connection_by_id :: "('l, 'w) controller \<Rightarrow> conn_id \<Rightarrow> ref option" where
  "get_connection_by_id self i = connections self i"

text \<open>
  \<^verbatim>\<open>remove_connection\<close> pops the entry and returns \<^verbatim>\<open>True\<close>, or returns \<^verbatim>\<open>False\<close> on \<^verbatim>\<open>KeyError\<close>.
\<close>

definition remove_connection ::
  "conn_id \<Rightarrow> ('l, 'w) controller \<Rightarrow> (pyval, ('l, 'w) controller) result" where
  "remove_connection i self =
     (case connections self i of
        None \<Rightarrow> Returns (PyBool False) self
      | Some c \<Rightarrow> Returns (PyBool True) (self\<lparr>connections := (connections self)(i := None)\<rparr>))"

text \<open>
  \<^verbatim>\<open>remove_switch\<close> pops the entry, or returns \<^verbatim>\<open>False\<close> on \<^verbatim>\<open>KeyError\<close>. After a successful pop
  the body ends without a \<^verbatim>\<open>return\<close> statement, so the call returns \<^verbatim>\<open>None\<close>.
\<close>

definition remove_switch ::
  "string \<Rightarrow> ('l, 'w) controller \<Rightarrow> (pyval, ('l, 'w) controller) result" where
  "remove_switch d self =
     (case switches self d of
        None \<Rightarrow> Returns (PyBool False) self
      | Some s \<Rightarrow> Returns PyNone (self\<lparr>switches := (switches self)(d := None)\<rparr>))"

subsection \<open>Unloading a NApp\<close>

text \<open>
  The inner loop of \<^verbatim>\<open>unload_napp\<close>:
  \<^verbatim>\<open>for listener in listeners: self.events_listeners[event_type].remove(listener)\<close>.
  The subscript raises \<^verbatim>\<open>KeyError\<close> when the pattern is not in the table, and \<^verbatim>\<open>list.remove\<close>
  raises \<^verbatim>\<open>ValueError\<close> when the listener is not in the list; otherwise the first occurrence
  is removed.
\<close>

fun remove_listeners ::
  "string \<Rightarrow> 'l listener list \<Rightarrow> 'l table \<Rightarrow> (unit, 'l table) result" where
  "remove_listeners event_type [] tbl = Returns () tbl"
| "remove_listeners event_type (listener # rest) tbl =
     (case map_of tbl event_type of
        None \<Rightarrow> Raises KeyError tbl
      | Some cur \<Rightarrow>
          if listener \<in> set cur
          then remove_listeners event_type rest
                 (AList.update event_type (remove1 listener cur) tbl)
          else Raises ValueError tbl)"

text \<open>
  One round of the outer loop: remove the listeners, then pop the pattern when its list has
  become empty.
\<close>

definition unregister ::
  "string \<times> 'l listener list \<Rightarrow> 'l table \<Rightarrow> (unit, 'l table) result" where
  "unregister entry tbl =
     (case remove_listeners (fst entry) (snd entry) tbl of
        Raises e tbl' \<Rightarrow> Raises e tbl'
      | Returns u tbl' \<Rightarrow>
          (case map_of tbl' (fst entry) of
             None \<Rightarrow> Raises KeyError tbl'
           | Some cur \<Rightarrow>
               if length cur = 0 then Returns () (AList.delete (fst entry) tbl')
               else Returns () tbl'))"

fun unregister_all :: "'l table \<Rightarrow> 'l table \<Rightarrow> (unit, 'l table) result" where
  "unregister_all [] tbl = Returns () tbl"
| "unregister_all (entry # rest) tbl =
     (case unregister entry tbl of
        Raises e tbl' \<Rightarrow> Raises e tbl'
      | Returns u tbl' \<Rightarrow> unregister_all rest tbl')"

text \<open>
  \<^verbatim>\<open>unload_napp\<close>: pop the NApp from the registry (\<^verbatim>\<open>KeyError\<close> when it is not there), call its
  \<^verbatim>\<open>shutdown()\<close>, then remove its listeners from the table.
\<close>

definition unload_napp ::
  "string \<Rightarrow> ('l, 'w) controller \<Rightarrow> (unit, ('l, 'w) controller) result" where
  "unload_napp napp_name self =
     (case napps self napp_name of
        None \<Rightarrow> Raises KeyError self
      | Some napp \<Rightarrow>
          let self1 = self\<lparr>napps := (napps self)(napp_name := None)\<rparr> in
          (case shutdown napp (world self1) of
             Raises e w \<Rightarrow> Raises e (self1\<lparr>world := w\<rparr>)
           | Returns u w \<Rightarrow>
               let self2 = self1\<lparr>world := w\<rparr> in
               (case unregister_all (napp_listeners napp) (events_listeners self2) of
                  Raises e tbl \<Rightarrow> Raises e (self2\<lparr>events_listeners := tbl\<rparr>)
                | Returns u' tbl \<Rightarrow> Returns () (self2\<lparr>events_listeners := tbl\<rparr>))))"

subsection \<open>Loading a NApp\<close>

text \<open>
  One round of the loop of \<^verbatim>\<open>load_napp\<close>: create an empty list for a pattern that is not in
  the table (a new key goes to the end of the dictionary), then extend the pattern's list
  with the NApp's listeners.
\<close>

definition register :: "string \<times> 'l listener list \<Rightarrow> 'l table \<Rightarrow> 'l table" where
  "register entry tbl =
     (case map_of tbl (fst entry) of
        None \<Rightarrow> AList.update (fst entry) ([] @ snd entry) tbl
      | Some cur \<Rightarrow> AList.update (fst entry) (cur @ snd entry) tbl)"

fun register_all :: "'l table \<Rightarrow> 'l table \<Rightarrow> 'l table" where
  "register_all [] tbl = tbl"
| "register_all (entry # rest) tbl = register_all rest (register entry tbl)"

text \<open>
  \<^verbatim>\<open>load_napp\<close>. Importing \<^verbatim>\<open>main.py\<close> and calling \<^verbatim>\<open>Main(controller=self)\<close> runs code that is
  not the controller's: the parameter \<open>loader\<close> says, for a NApp name, whether that raises
  or which instance it returns, and what it does to the NApp part of the state. Then the
  instance is stored in the registry, its listeners are registered, and \<^verbatim>\<open>start()\<close> is called
  last; nothing catches an exception of \<^verbatim>\<open>start()\<close>.
\<close>

definition load_napp ::
  "(string \<Rightarrow> 'w \<Rightarrow> (('l, 'w) napp, 'w) result) \<Rightarrow> string \<Rightarrow> ('l, 'w) controller
     \<Rightarrow> (unit, ('l, 'w) controller) result" where
  "load_napp loader napp_name self =
     (case loader napp_name (world self) of
        Raises e w \<Rightarrow> Raises e (self\<lparr>world := w\<rparr>)
      | Returns napp w \<Rightarrow>
          let self1 = self\<lparr>world := w, napps := (napps self)(napp_name \<mapsto> napp)\<rparr>;
              self2 = self1\<lparr>events_listeners :=
                        register_all (napp_listeners napp) (events_listeners self1)\<rparr>
          in (case start napp (world self2) of
                Raises e w' \<Rightarrow> Raises e (self2\<lparr>world := w'\<rparr>)
              | Returns u w' \<Rightarrow> Returns () (self2\<lparr>world := w'\<rparr>)))"

subsection \<open>The built-in listener for new connections\<close>

text \<open>
  Modelled from the spec: \<^verbatim>\<open>Switch.disconnect\<close> (module \<^verbatim>\<open>kyco.core.switch\<close>) is missing from
  the sources. The specification says that the handler "disconnects that Switch's current
  Connection"; the model closes the connection the switch refers to, if any.
\<close>

definition disconnect ::
  "switch_obj \<Rightarrow> ('l, 'w) controller \<Rightarrow> (unit, ('l, 'w) controller) result" where
  "disconnect sw self =
     (case connection sw of
        None \<Rightarrow> Returns () self
      | Some r \<Rightarrow> Returns () (self\<lparr>heap := (heap self)(r := (heap self r)\<lparr>state := CLOSED\<rparr>)\<rparr>))"

text \<open>
  \<^verbatim>\<open>new_connection\<close>. \<^verbatim>\<open>event.content['connection']\<close> raises \<^verbatim>\<open>KeyError\<close> when the key is
  missing, and reading \<^verbatim>\<open>.id\<close> of a value that is not a Connection raises
  \<^verbatim>\<open>AttributeError\<close>. Connection and Switch objects are truthy, as Python objects are unless
  their class says otherwise, so each \<^verbatim>\<open>if\<close> tests whether the lookup found an entry.
\<close>

definition new_connection ::
  "event \<Rightarrow> ('l, 'w) controller \<Rightarrow> (unit, ('l, 'w) controller) result" where
  "new_connection ev self =
     (case map_of (content ev) ''connection'' of
        None \<Rightarrow> Raises KeyError self
      | Some (PyConnection r) \<Rightarrow>
          let c = heap self r in
          (case (case get_connection_by_id self (id_conn c) of
                   None \<Rightarrow> Returns PyNone self
                 | Some old \<Rightarrow> remove_connection (id_conn c) self) of
             Raises e self1 \<Rightarrow> Raises e self1
           | Returns v self1 \<Rightarrow>
               (case (case get_switch_by_dpid self1 (dpid c) of
                        None \<Rightarrow> Returns () self1
                      | Some sw \<Rightarrow> disconnect sw self1) of
                  Raises e self2 \<Rightarrow> Raises e self2
                | Returns u self2 \<Rightarrow>
                    Returns () (self2\<lparr>connections := (connections self2)(id_conn c \<mapsto> r)\<rparr>)))
      | Some other \<Rightarrow> Raises AttributeError self)"

subsection \<open>Sending\<close>

datatype destination = Dest_tuple conn_id | Dest_dpid string

text \<open>
  Modelled from the spec: the socket of a Connection and \<^verbatim>\<open>Switch.send\<close> are missing from the
  sources. The specification says that \<^verbatim>\<open>send_to\<close> "writes via the matching Connection",
  with an io-error for socket failures, and "writes via that Switch's current Connection",
  with switch-offline when that connection is not ESTABLISHED. A write appends the
  message to the bytes written on the connection; a closed socket raises \<^verbatim>\<open>OSError\<close>.
\<close>

definition socket_send ::
  "ref \<Rightarrow> string \<Rightarrow> ('l, 'w) controller \<Rightarrow> (unit, ('l, 'w) controller) result" where
  "socket_send r message self =
     (if state (heap self r) = CLOSED then Raises OSError self
      else Returns ()
             (self\<lparr>heap := (heap self)(r := (heap self r)\<lparr>written := written (heap self r) @ [message]\<rparr>)\<rparr>))"

definition switch_send ::
  "switch_obj \<Rightarrow> string \<Rightarrow> ('l, 'w) controller \<Rightarrow> (unit, ('l, 'w) controller) result" where
  "switch_send sw message self =
     (case connection sw of
        None \<Rightarrow> Raises KycoSwitchOfflineException self
      | Some r \<Rightarrow>
          if state (heap self r) \<noteq> ESTABLISHED then Raises KycoSwitchOfflineException self
          else socket_send r message self)"

text \<open>
  \<^verbatim>\<open>send_to\<close>. Each branch subscripts a registry, which raises \<^verbatim>\<open>KeyError\<close> for a destination
  that is not registered. The \<^verbatim>\<open>except\<close> clauses name \<^verbatim>\<open>OSError\<close>, \<^verbatim>\<open>SocketError\<close> (an alias of
  \<^verbatim>\<open>OSError\<close>) and \<^verbatim>\<open>KycoSwitchOfflineException\<close>; they log and raise the exception again.
  Every other exception passes through them untouched.
\<close>

definition send_to ::
  "destination \<Rightarrow> string \<Rightarrow> ('l, 'w) controller \<Rightarrow> (unit, ('l, 'w) controller) result" where
  "send_to dest message self =
     (case dest of
        Dest_tuple i \<Rightarrow>
          (case (case connections self i of
                   None \<Rightarrow> Raises KeyError self
                 | Some r \<Rightarrow> socket_send r message self) of
             Raises e self' \<Rightarrow>
               if e = OSError then Raises e self' else Raises e self'
           | Returns u self' \<Rightarrow> Returns () self')
      | Dest_dpid d \<Rightarrow>
          (case (case switches self d of
                   None \<Rightarrow> Raises KeyError self
                 | Some sw \<Rightarrow> switch_send sw message self) of
             Raises e self' \<Rightarrow>
               if e = OSError \<or> e = KycoSwitchOfflineException then Raises e self'
               else Raises e self'
           | Returns u self' \<Rightarrow> Returns () self'))"

section \<open>Dispatch\<close>

subsection \<open>Matching a pattern: a fragment of Python's regular expressions\<close>

text \<open>
  \<^verbatim>\<open>notify_listeners\<close> calls \<^verbatim>\<open>re.match(event_regex, event.name)\<close>, a function of Python's
  standard library that succeeds when the pattern matches some text at the beginning of
  the name. The dispatch functions below take the matcher as a parameter \<open>rx\<close>, with \<open>None\<close>
  for a pattern at which \<^verbatim>\<open>re.match\<close> raises \<^verbatim>\<open>re.error\<close>. The matcher \<open>re_match\<close> defined here
  implements a fragment of the pattern language: ordinary characters, the dot (any
  character but a newline), a backslash before a character that is neither a letter nor a
  digit (that character, literally), the repetitions \<^verbatim>\<open>*\<close>, \<^verbatim>\<open>+\<close> and \<^verbatim>\<open>?\<close> after one of these,
  greedy or lazy (\<^verbatim>\<open>*?\<close>, \<^verbatim>\<open>+?\<close>, \<^verbatim>\<open>??\<close>: whether a match exists does not depend on the
  laziness), and the anchors \<^verbatim>\<open>^\<close> (the beginning of the string) and \<^verbatim>\<open>$\<close> (the end of the
  string, or just before a newline that ends it). Python rejects a repetition that has
  nothing to repeat, that follows an anchor or that follows another repetition, and a
  backslash that ends the pattern: \<open>re_match\<close> answers \<open>None\<close> there. It also answers \<open>None\<close>
  for the patterns outside the fragment (alternation, groups, character classes, braces,
  a backslash before a letter or a digit), which Python may accept: what is proved with
  \<open>re_match\<close> speaks about the patterns of the fragment. A pattern without special
  characters always belongs to it. Python dictionaries keep their keys in insertion order,
  which is the order of the association list.
\<close>

definition backslash :: char where
  "backslash = CHR 0x5C"

definition alnum :: string where
  "alnum = ''abcdefghijklmnopqrstuvwxyzABCDEFGHIJKLMNOPQRSTUVWXYZ0123456789''"

datatype atom = Lit char | Any_char

datatype quant = Once | Star | Plus | Opt

datatype token = Atom atom | Quant quant | Caret | Dollar

fun tokens :: "string \<Rightarrow> token list option" where
  "tokens [] = Some []"
| "tokens (c # cs) =
     (if c = backslash then
        (case cs of
           [] \<Rightarrow> None
         | d # ds \<Rightarrow>
             if d \<in> set alnum then None
             else map_option ((#) (Atom (Lit d))) (tokens ds))
      else if c = CHR ''.'' then map_option ((#) (Atom Any_char)) (tokens cs)
      else if c = CHR ''*'' then map_option ((#) (Quant Star)) (tokens cs)
      else if c = CHR ''+'' then map_option ((#) (Quant Plus)) (tokens cs)
      else if c = CHR ''?'' then map_option ((#) (Quant Opt)) (tokens cs)
      else if c = CHR ''^'' then map_option ((#) Caret) (tokens cs)
      else if c = CHR ''$'' then map_option ((#) Dollar) (tokens cs)
      else if c \<in> set ''|()[]{}'' then None
      else map_option ((#) (Atom (Lit c))) (tokens cs))"

text \<open>
  A pattern of the fragment is a sequence of items: an atom with its repetition, or an
  anchor. A question mark after a repetition makes it lazy and is dropped.
\<close>

datatype item = Rep atom quant | Bol | Eol

fun items :: "token list \<Rightarrow> item list option" where
  "items [] = Some []"
| "items (Atom a # Quant q # Quant Opt # ts) = map_option ((#) (Rep a q)) (items ts)"
| "items (Atom a # Quant q # ts) = map_option ((#) (Rep a q)) (items ts)"
| "items (Atom a # ts) = map_option ((#) (Rep a Once)) (items ts)"
| "items (Caret # ts) = map_option ((#) Bol) (items ts)"
| "items (Dollar # ts) = map_option ((#) Eol) (items ts)"
| "items (Quant q # ts) = None"

fun atom_ok :: "atom \<Rightarrow> char \<Rightarrow> bool" where
  "atom_ok (Lit d) c = (c = d)"
| "atom_ok Any_char c = (c \<noteq> CHR 0x0A)"

text \<open>
  \<open>match_items b its s\<close>: the sequence \<open>its\<close> matches some text at the beginning of \<open>s\<close>, where
  \<open>s\<close> is what is left of the string and \<open>b\<close> tells whether nothing of it has been consumed
  yet.
\<close>

fun match_items :: "bool \<Rightarrow> item list \<Rightarrow> string \<Rightarrow> bool" where
  "match_items b [] s = True"
| "match_items b (Bol # r) s = (b \<and> match_items b r s)"
| "match_items b (Eol # r) s = ((s = [] \<or> s = [CHR 0x0A]) \<and> match_items b r s)"
| "match_items b (Rep a Once # r) [] = False"
| "match_items b (Rep a Once # r) (c # cs) = (atom_ok a c \<and> match_items False r cs)"
| "match_items b (Rep a Opt # r) [] = match_items b r []"
| "match_items b (Rep a Opt # r) (c # cs) =
     ((atom_ok a c \<and> match_items False r cs) \<or> match_items b r (c # cs))"
| "match_items b (Rep a Star # r) [] = match_items b r []"
| "match_items b (Rep a Star # r) (c # cs) =
     ((atom_ok a c \<and> match_items False (Rep a Star # r) cs) \<or> match_items b r (c # cs))"
| "match_items b (Rep a Plus # r) [] = False"
| "match_items b (Rep a Plus # r) (c # cs) =
     (atom_ok a c \<and> match_items False (Rep a Star # r) cs)"

definition re_match :: "string \<Rightarrow> string \<Rightarrow> bool option" where
  "re_match pattern s =
     (case tokens pattern of
        None \<Rightarrow> None
      | Some ts \<Rightarrow>
          (case items ts of None \<Rightarrow> None | Some its \<Rightarrow> Some (match_items True its s)))"

text \<open>The characters with a special meaning in a pattern; a literal pattern has none.\<close>

definition special :: "char set" where
  "special = insert backslash (set ''.^$*+?{}[]|()'')"

definition literal :: "string \<Rightarrow> bool" where
  "literal pattern = (list_all (\<lambda>c. c \<notin> special) pattern)"

text \<open>
  What it means that a match is anchored at the beginning: \<open>spans b its u v\<close> says that the
  sequence \<open>its\<close> matches the text \<open>u\<close> exactly, where \<open>v\<close> is what follows \<open>u\<close> in the string
  and \<open>b\<close> tells whether \<open>u\<close> begins the string. A pattern then matches a name when it spans
  some \<open>u\<close> with which the name begins.
\<close>

fun spans :: "bool \<Rightarrow> item list \<Rightarrow> string \<Rightarrow> string \<Rightarrow> bool" where
  "spans b [] u v = (u = [])"
| "spans b (Bol # r) u v = (b \<and> spans b r u v)"
| "spans b (Eol # r) u v = ((u @ v = [] \<or> u @ v = [CHR 0x0A]) \<and> spans b r u v)"
| "spans b (Rep a Once # r) [] v = False"
| "spans b (Rep a Once # r) (c # u) v = (atom_ok a c \<and> spans False r u v)"
| "spans b (Rep a Opt # r) [] v = spans b r [] v"
| "spans b (Rep a Opt # r) (c # u) v =
     ((atom_ok a c \<and> spans False r u v) \<or> spans b r (c # u) v)"
| "spans b (Rep a Star # r) [] v = spans b r [] v"
| "spans b (Rep a Star # r) (c # u) v =
     ((atom_ok a c \<and> spans False (Rep a Star # r) u v) \<or> spans b r (c # u) v)"
| "spans b (Rep a Plus # r) [] v = False"
| "spans b (Rep a Plus # r) (c # u) v = (atom_ok a c \<and> spans False (Rep a Star # r) u v)"

subsection \<open>Calling listeners\<close>

text \<open>
  Calling a listener with an event: the controller's own \<^verbatim>\<open>new_connection\<close>, or a NApp
  method, whose behaviour \<open>ext\<close> gives. A NApp method acts on the NApp part of the state
  and leaves the listener table as it is while \<^verbatim>\<open>notify_listeners\<close> iterates over it.
\<close>

definition call_listener ::
  "('l \<Rightarrow> event \<Rightarrow> 'w \<Rightarrow> (unit, 'w) result) \<Rightarrow> 'l listener \<Rightarrow> event \<Rightarrow> ('l, 'w) controller
     \<Rightarrow> (unit, ('l, 'w) controller) result" where
  "call_listener ext l ev self =
     (case l of
        New_connection \<Rightarrow> new_connection ev self
      | NApp_method h \<Rightarrow>
          (case ext h ev (world self) of
             Raises e w \<Rightarrow> Raises e (self\<lparr>world := w\<rparr>)
           | Returns u w \<Rightarrow> Returns () (self\<lparr>world := w\<rparr>)))"

text \<open>
  The inner loop of \<^verbatim>\<open>notify_listeners\<close>: \<^verbatim>\<open>for listener in listeners: listener(event)\<close>. There
  is no \<^verbatim>\<open>try\<close> around the call: an exception of a listener ends the loop.
\<close>

fun call_listeners ::
  "('l \<Rightarrow> event \<Rightarrow> 'w \<Rightarrow> (unit, 'w) result) \<Rightarrow> 'l listener list \<Rightarrow> event
     \<Rightarrow> ('l, 'w) controller \<Rightarrow> (unit, ('l, 'w) controller) result" where
  "call_listeners ext [] ev self = Returns () self"
| "call_listeners ext (listener # rest) ev self =
     (case call_listener ext listener ev self of
        Raises e self' \<Rightarrow> Raises e self'
      | Returns u self' \<Rightarrow> call_listeners ext rest ev self')"

text \<open>
  The outer loop:
  \<^verbatim>\<open>for event_regex, listeners in self.events_listeners.items(): if re.match(...): ...\<close>.
\<close>

fun notify_items ::
  "(string \<Rightarrow> string \<Rightarrow> bool option) \<Rightarrow> ('l \<Rightarrow> event \<Rightarrow> 'w \<Rightarrow> (unit, 'w) result) \<Rightarrow> 'l table
     \<Rightarrow> event \<Rightarrow> ('l, 'w) controller \<Rightarrow> (unit, ('l, 'w) controller) result" where
  "notify_items rx ext [] ev self = Returns () self"
| "notify_items rx ext ((event_regex, listeners) # rest) ev self =
     (case rx event_regex (name ev) of
        None \<Rightarrow> Raises Re_error self
      | Some False \<Rightarrow> notify_items rx ext rest ev self
      | Some True \<Rightarrow>
          (case call_listeners ext listeners ev self of
             Raises e self' \<Rightarrow> Raises e self'
           | Returns u self' \<Rightarrow> notify_items rx ext rest ev self'))"

definition notify_listeners ::
  "(string \<Rightarrow> string \<Rightarrow> bool option) \<Rightarrow> ('l \<Rightarrow> event \<Rightarrow> 'w \<Rightarrow> (unit, 'w) result) \<Rightarrow> event
     \<Rightarrow> ('l, 'w) controller \<Rightarrow> (unit, ('l, 'w) controller) result" where
  "notify_listeners rx ext ev self = notify_items rx ext (events_listeners self) ev self"

subsection \<open>The handler loops\<close>

text \<open>
  A handler runs in a thread of its own and consumes a buffer. For a finite sequence of
  events put on the buffer the thread ends in one of three ways: it leaves its loop through
  \<^verbatim>\<open>break\<close>, it waits in \<^verbatim>\<open>get()\<close> on the emptied buffer, or an exception leaves the loop and
  ends the thread.
\<close>

datatype 's thread = Stopped 's | Blocked 's | Died exn 's

text \<open>
  \<^verbatim>\<open>raw_event_handler\<close>: get an event; leave the loop when its name is the shutdown name;
  otherwise notify the listeners.
\<close>

fun raw_event_handler ::
  "(string \<Rightarrow> string \<Rightarrow> bool option) \<Rightarrow> ('l \<Rightarrow> event \<Rightarrow> 'w \<Rightarrow> (unit, 'w) result) \<Rightarrow> event list
     \<Rightarrow> ('l, 'w) controller \<Rightarrow> ('l, 'w) controller thread" where
  "raw_event_handler rx ext [] self = Blocked self"
| "raw_event_handler rx ext (ev # buffer) self =
     (if name ev = ''kyco/core.shutdown'' then Stopped self
      else (case notify_listeners rx ext ev self of
              Raises e self' \<Rightarrow> Died e self'
            | Returns u self' \<Rightarrow> raw_event_handler rx ext buffer self'))"

text \<open>
  \<^verbatim>\<open>app_event_handler\<close>: get an event; notify the listeners; then leave the loop when the
  event's name is the shutdown name.
\<close>

fun app_event_handler ::
  "(string \<Rightarrow> string \<Rightarrow> bool option) \<Rightarrow> ('l \<Rightarrow> event \<Rightarrow> 'w \<Rightarrow> (unit, 'w) result) \<Rightarrow> event list
     \<Rightarrow> ('l, 'w) controller \<Rightarrow> ('l, 'w) controller thread" where
  "app_event_handler rx ext [] self = Blocked self"
| "app_event_handler rx ext (ev # buffer) self =
     (case notify_listeners rx ext ev self of
        Raises e self' \<Rightarrow> Died e self'
      | Returns u self' \<Rightarrow>
          if name ev = ''kyco/core.shutdown'' then Stopped self'
          else app_event_handler rx ext buffer self')"

section \<open>Initial state and example objects\<close>

text \<open>
  \<^verbatim>\<open>Controller.__init__\<close>: empty registries, and a listener table with one entry, the
  controller's own \<^verbatim>\<open>new_connection\<close> under the key \<^verbatim>\<open>'kyco/core.connection.new'\<close>.
\<close>

definition Controller_init :: "(ref \<Rightarrow> connection_obj) \<Rightarrow> 'w \<Rightarrow> ('l, 'w) controller" where
  "Controller_init h w =
     \<lparr>connections = Map.empty,
      events_listeners = [(''kyco/core.connection.new'', [New_connection])],
      napps = Map.empty,
      switches = Map.empty,
      heap = h,
      world = w\<rparr>"

text \<open>A Connection as the acceptor creates it: identified by its peer address, no dpid yet.\<close>

definition fresh_connection :: "conn_id \<Rightarrow> connection_obj" where
  "fresh_connection i = \<lparr>id_conn = i, dpid = None, state = NEW, written = []\<rparr>"

text \<open>
  Two Connection objects, at addresses 1 and 2, for the same peer \<^verbatim>\<open>("10.0.0.1", 6633)\<close>; the
  second has reported the dpid \<^verbatim>\<open>0x01\<close>.
\<close>

definition two_connections :: "ref \<Rightarrow> connection_obj" where
  "two_connections r =
     (if r = 2 then (fresh_connection (''10.0.0.1'', 6633))\<lparr>dpid := Some ''0x01''\<rparr>
      else fresh_connection (''10.0.0.1'', 6633))"

definition connection_new :: "ref \<Rightarrow> event" where
  "connection_new r =
     \<lparr>name = ''kyco/core.connection.new'', content = [(''connection'', PyConnection r)]\<rparr>"

text \<open>
  A controller in which the first connection is registered and is the current connection
  of the switch \<^verbatim>\<open>0x01\<close>.
\<close>

definition one_switch :: "(unit, unit) controller" where
  "one_switch =
     (Controller_init two_connections ())
       \<lparr>connections := [(''10.0.0.1'', 6633) \<mapsto> 1],
        switches := [''0x01'' \<mapsto> \<lparr>dpid_switch = ''0x01'', connection = Some 1\<rparr>]\<rparr>"

section \<open>Notions used to state the properties of dispatch\<close>

text \<open>
  Delivering a sequence of events one after the other: \<^verbatim>\<open>notify_listeners\<close> for each, in
  order, until one of the calls raises.
\<close>

fun notify_all ::
  "(string \<Rightarrow> string \<Rightarrow> bool option) \<Rightarrow> ('l \<Rightarrow> event \<Rightarrow> 'w \<Rightarrow> (unit, 'w) result) \<Rightarrow> event list
     \<Rightarrow> ('l, 'w) controller \<Rightarrow> (unit, ('l, 'w) controller) result" where
  "notify_all rx ext [] self = Returns () self"
| "notify_all rx ext (ev # evs) self =
     (case notify_listeners rx ext ev self of
        Raises e self' \<Rightarrow> Raises e self'
      | Returns u self' \<Rightarrow> notify_all rx ext evs self')"

text \<open>
  The dispatcher loop in the words of the specification (section 4.3): get an event; invoke
  \<^verbatim>\<open>notify_listeners(event)\<close>; if the event's name equals the shutdown name, terminate. The
  shutdown name is a parameter.
\<close>

fun dispatcher_loop_spec ::
  "string \<Rightarrow> (string \<Rightarrow> string \<Rightarrow> bool option) \<Rightarrow> ('l \<Rightarrow> event \<Rightarrow> 'w \<Rightarrow> (unit, 'w) result)
     \<Rightarrow> event list \<Rightarrow> ('l, 'w) controller \<Rightarrow> ('l, 'w) controller thread" where
  "dispatcher_loop_spec sentinel rx ext [] self = Blocked self"
| "dispatcher_loop_spec sentinel rx ext (ev # buffer) self =
     (case notify_listeners rx ext ev self of
        Raises e self' \<Rightarrow> Died e self'
      | Returns u self' \<Rightarrow>
          if name ev = sentinel then Stopped self'
          else dispatcher_loop_spec sentinel rx ext buffer self')"

text \<open>How a thread ends whose last action has the given outcome.\<close>

fun ended :: "(unit, 's) result \<Rightarrow> 's thread" where
  "ended (Returns u s) = Stopped s"
| "ended (Raises e s) = Died e s"

text \<open>An event with a name and no content.\<close>

definition named :: "string \<Rightarrow> event" where
  "named n = \<lparr>name = n, content = []\<rparr>"

text \<open>
  Subscribing one NApp method to a pattern, the way \<^verbatim>\<open>load_napp\<close> registers the listeners
  of a NApp.
\<close>

definition subscribe :: "string \<Rightarrow> 'l \<Rightarrow> ('l, 'w) controller \<Rightarrow> ('l, 'w) controller" where
  "subscribe pattern h self =
     self\<lparr>events_listeners := register (pattern, [NApp_method h]) (events_listeners self)\<rparr>"

text \<open>A listener that counts its invocations.\<close>

definition counting :: "unit \<Rightarrow> event \<Rightarrow> nat \<Rightarrow> (unit, nat) result" where
  "counting h ev n = Returns () (Suc n)"

text \<open>
  Listeners named by strings: \<^verbatim>\<open>L1\<close> raises, every other one appends the event it receives
  to a log.
\<close>

definition recording :: "string \<Rightarrow> event \<Rightarrow> event list \<Rightarrow> (unit, event list) result" where
  "recording h ev w =
     (if h = ''L1'' then Raises (Exception ''L1 failed'') w else Returns () (w @ [ev]))"

text \<open>The pattern \<^verbatim>\<open>kytos/core\.connection\..*\<close>.\<close>

definition conn_pattern :: string where
  "conn_pattern = ''kytos/core'' @ [backslash] @ ''.connection'' @ [backslash] @ ''..*''"

text \<open>Controllers with an empty count or log and the listeners of the scenarios.\<close>

definition counter_ab :: "(unit, nat) controller" where
  "counter_ab = subscribe ''a.b'' () (Controller_init two_connections 0)"

definition faulty_x :: "(string, event list) controller" where
  "faulty_x =
     subscribe ''y'' ''L3''
       (subscribe ''x'' ''L2'' (subscribe ''x'' ''L1'' (Controller_init two_connections [])))"

definition on_shutdown :: "(string, event list) controller" where
  "on_shutdown = subscribe ''kyco/core.shutdown'' ''L'' (Controller_init two_connections [])"

definition on_connection :: "(string, event list) controller" where
  "on_connection = subscribe conn_pattern ''L'' (Controller_init two_connections [])"

text \<open>
  Two listeners under patterns without special characters, the first of which raises; a
  table with a pattern that Python rejects (a repetition with nothing to repeat); and a
  listener under a pattern with which the name of the new-connection event begins.
\<close>

definition two_prefixes :: "(string, event list) controller" where
  "two_prefixes =
     subscribe ''kytos/core'' ''L2'' (subscribe ''kytos'' ''L1'' (Controller_init two_connections []))"

definition invalid_pattern :: "(string, event list) controller" where
  "invalid_pattern =
     subscribe ''x'' ''L2'' (subscribe ''*'' ''L0'' (Controller_init two_connections []))"

definition core_listener :: "(string, event list) controller" where
  "core_listener = subscribe ''kyco/core'' ''L'' (Controller_init two_connections [])"

section \<open>Notions used to state the properties of loading and unloading\<close>

text \<open>One call after the other; an exception of the first ends the sequence.\<close>

definition and_then ::
  "(unit, 's) result \<Rightarrow> ('s \<Rightarrow> (unit, 's) result) \<Rightarrow> (unit, 's) result" where
  "and_then r f = (case r of Raises e s \<Rightarrow> Raises e s | Returns u s \<Rightarrow> f s)"

text \<open>What a call has made of the listener table, and the exception it raised, if any.\<close>

definition table_after ::
  "(unit, ('l, 'w) controller) result \<Rightarrow> exn option \<times> 'l table" where
  "table_after r =
     (case r of
        Raises e s \<Rightarrow> (Some e, events_listeners s)
      | Returns u s \<Rightarrow> (None, events_listeners s))"

text \<open>
  A NApp with one listener for the pattern \<^verbatim>\<open>x\<close>, whose \<^verbatim>\<open>start()\<close> returns or raises as the
  flag says.
\<close>

definition napp_on_x :: "string \<Rightarrow> bool \<Rightarrow> (string, event list) napp" where
  "napp_on_x h starts =
     \<lparr>napp_listeners = [(''x'', [NApp_method h])],
      start = (\<lambda>w. if starts then Returns () w else Raises (Exception ''start failed'') w),
      shutdown = (\<lambda>w. Returns () w)\<rparr>"

text \<open>
  A directory of NApps: \<^verbatim>\<open>kytos/a\<close> and \<^verbatim>\<open>kytos/b\<close> start, \<^verbatim>\<open>kytos/bad\<close> raises in
  \<^verbatim>\<open>start()\<close>, and no other name has a \<^verbatim>\<open>main.py\<close>.
\<close>

definition napps_dir :: "string \<Rightarrow> event list \<Rightarrow> ((string, event list) napp, event list) result" where
  "napps_dir napp_name w =
     (if napp_name = ''kytos/a'' then Returns (napp_on_x ''a.on_x'' True) w
      else if napp_name = ''kytos/b'' then Returns (napp_on_x ''b.on_x'' True) w
      else if napp_name = ''kytos/bad'' then Returns (napp_on_x ''bad.on_x'' False) w
      else Raises FileNotFoundError w)"

definition started :: "(string, event list) controller" where
  "started = Controller_init two_connections []"

text \<open>
  A table is fresh for the listeners of a NApp when, under each of the NApp's patterns,
  the table has no entry, or a non-empty list with none of the NApp's listeners for that
  pattern in it.
\<close>

definition fresh_for :: "'l table \<Rightarrow> 'l table \<Rightarrow> bool" where
  "fresh_for tbl ls =
     list_all (\<lambda>entry. case map_of tbl (fst entry) of
                          None \<Rightarrow> True
                        | Some cur \<Rightarrow> cur \<noteq> [] \<and> list_all (\<lambda>l. l \<notin> set cur) (snd entry)) ls"

section \<open>Properties of the registries\<close>

text \<open>
  Claim C4. \<^verbatim>\<open>remove_switch(dpid)\<close> is to remove the switch and return whether it was present.
  For a registered dpid the method does remove the switch, but it returns \<^verbatim>\<open>None\<close>, not
  \<^verbatim>\<open>True\<close>: the \<^verbatim>\<open>return True\<close> that ends \<^verbatim>\<open>remove_connection\<close> is missing here. The theorem
  evaluates both methods on a controller with one switch and one connection.
\<close>

theorem remove_switch_registered_returns_None:
  "remove_switch ''0x01'' one_switch = Returns PyNone (one_switch\<lparr>switches := Map.empty\<rparr>)
   \<and> remove_switch ''0xff'' one_switch = Returns (PyBool False) one_switch
   \<and> remove_connection (''10.0.0.1'', 6633) one_switch
       = Returns (PyBool True) (one_switch\<lparr>connections := Map.empty\<rparr>)"
  by (simp add: remove_switch_def remove_connection_def one_switch_def Controller_init_def)

text \<open>
  Claim C6. When the event carries a Connection \<open>c\<close> (the object at address \<open>r\<close>),
  \<^verbatim>\<open>new_connection\<close> returns normally; afterwards the registry maps \<open>c.id\<close> to \<open>c\<close>, so an
  object registered there before is no longer registered there; the other entries are as
  before; and when a switch was registered for \<open>c.dpid\<close>, the connection that switch refers
  to is closed.
\<close>

theorem new_connection_registers:
  assumes "map_of (content ev) ''connection'' = Some (PyConnection r)"
  shows "\<exists>self'. new_connection ev self = Returns () self'
           \<and> connections self' (id_conn (heap self r)) = Some r
           \<and> (\<forall>old. connections self (id_conn (heap self r)) = Some old \<and> old \<noteq> r
                \<longrightarrow> connections self' (id_conn (heap self r)) \<noteq> Some old)
           \<and> (\<forall>i. i \<noteq> id_conn (heap self r) \<longrightarrow> connections self' i = connections self i)
           \<and> (\<forall>sw r'. get_switch_by_dpid self (dpid (heap self r)) = Some sw
                  \<and> connection sw = Some r'
                \<longrightarrow> state (heap self' r') = CLOSED)"
  using assms
  by (auto simp: new_connection_def get_connection_by_id_def remove_connection_def
        get_switch_by_dpid_def disconnect_def Let_def split: option.splits)

theorem new_connection_registers_witness:
  "map_of (content (connection_new 2)) ''connection'' = Some (PyConnection 2)
   \<and> (\<exists>self'. new_connection (connection_new 2) one_switch = Returns () self'
         \<and> connections self' (''10.0.0.1'', 6633) = Some 2
         \<and> state (heap self' 1) = CLOSED)"
proof -
  have h: "map_of (content (connection_new 2)) ''connection'' = Some (PyConnection 2)"
    by (simp add: connection_new_def)
  have sw: "get_switch_by_dpid one_switch (dpid (heap one_switch 2))
              = Some \<lparr>dpid_switch = ''0x01'', connection = Some 1\<rparr>"
    by (simp add: get_switch_by_dpid_def one_switch_def Controller_init_def
          two_connections_def fresh_connection_def)
  have i: "id_conn (heap one_switch 2) = (''10.0.0.1'', 6633)"
    by (simp add: one_switch_def Controller_init_def two_connections_def fresh_connection_def)
  from new_connection_registers [OF h, of one_switch] sw i h show ?thesis
    by auto
qed

text \<open>
  The scenario of the claim: two new-connection events for the same id with distinct
  Connection objects, handled one after the other from the initial state.
\<close>

lemma new_connection_twice:
  "\<exists>s1 s2. new_connection (connection_new 1) (Controller_init two_connections ()
               :: (unit, unit) controller) = Returns () s1
      \<and> connections s1 (''10.0.0.1'', 6633) = Some 1
      \<and> new_connection (connection_new 2) s1 = Returns () s2
      \<and> connections s2 (''10.0.0.1'', 6633) = Some 2"
  by (simp add: new_connection_def get_connection_by_id_def remove_connection_def
        get_switch_by_dpid_def connection_new_def Controller_init_def two_connections_def
        fresh_connection_def)

text \<open>
  Claim C8. \<^verbatim>\<open>send_to\<close> with a dpid that is not in the switch registry, or with an
  \<^verbatim>\<open>(ip, port)\<close> tuple that is not in the connection registry, raises \<^verbatim>\<open>KeyError\<close> to the
  caller and leaves the whole state, and with it the bytes written on every connection,
  as it was.
\<close>

theorem send_to_unknown_destination:
  "(switches self d = None \<longrightarrow> send_to (Dest_dpid d) message self = Raises KeyError self)
   \<and> (connections self i = None \<longrightarrow> send_to (Dest_tuple i) message self = Raises KeyError self)"
  by (simp add: send_to_def)

theorem send_to_unknown_destination_witness:
  "switches one_switch ''0xff'' = None
   \<and> send_to (Dest_dpid ''0xff'') ''hello'' one_switch = Raises KeyError one_switch
   \<and> connections one_switch (''10.0.0.9'', 6633) = None
   \<and> send_to (Dest_tuple (''10.0.0.9'', 6633)) ''hello'' one_switch
       = Raises KeyError one_switch"
  using send_to_unknown_destination
          [of one_switch "''0xff''" "''hello''" "(''10.0.0.9'', 6633)"]
  by (simp add: one_switch_def Controller_init_def)

section \<open>Properties of dispatch\<close>

subsection \<open>Auxiliary facts\<close>

lemmas scenario_defs =
  notify_listeners_def subscribe_def Controller_init_def register_def named_def
  counting_def recording_def re_match_def backslash_def alnum_def call_listener_def
  conn_pattern_def counter_ab_def faulty_x_def on_shutdown_def on_connection_def
  two_prefixes_def invalid_pattern_def core_listener_def

lemma tokens_literal: "literal p \<Longrightarrow> tokens p = Some (map (\<lambda>c. Atom (Lit c)) p)"
  by (induction p) (auto simp: literal_def special_def)

lemma items_literal:
  "items (map (\<lambda>c. Atom (Lit c)) p) = Some (map (\<lambda>c. Rep (Lit c) Once) p)"
proof (induction p)
  case Nil
  show ?case by simp
next
  case (Cons c cs)
  then show ?case by (cases cs) simp_all
qed

lemma match_items_literal:
  "match_items b (map (\<lambda>c. Rep (Lit c) Once) p) s = prefix p s"
proof (induction p arbitrary: s b)
  case Nil
  show ?case by simp
next
  case (Cons c cs)
  then show ?case by (cases s) auto
qed

lemma re_match_literal: "literal p \<Longrightarrow> re_match p s = Some (prefix p s)"
  by (simp add: re_match_def tokens_literal items_literal match_items_literal)

text \<open>A dot in a pattern is not a literal dot: the pattern \<^verbatim>\<open>a.b\<close> matches the name \<^verbatim>\<open>axb\<close>.\<close>

lemma dot_matches_any: "re_match ''a.b'' ''axb'' = Some True"
  by (simp add: re_match_def backslash_def alnum_def)

lemma call_listeners_append:
  "call_listeners ext (xs @ ys) ev self =
     (case call_listeners ext xs ev self of
        Raises e self' \<Rightarrow> Raises e self'
      | Returns u self' \<Rightarrow> call_listeners ext ys ev self')"
  by (induction xs arbitrary: self) (auto split: result.splits)

lemma notify_items_flat:
  "list_all (\<lambda>entry. rx (fst entry) (name ev) \<noteq> None) tbl \<Longrightarrow>
   notify_items rx ext tbl ev self =
     call_listeners ext
       (concat (map snd (filter (\<lambda>entry. rx (fst entry) (name ev) = Some True) tbl))) ev self"
proof (induction tbl arbitrary: self)
  case Nil
  show ?case by simp
next
  case (Cons entry rest)
  obtain p ls where e: "entry = (p, ls)" by (cases entry)
  from Cons.prems e obtain b where b: "rx p (name ev) = Some b" by auto
  from Cons.prems have r: "list_all (\<lambda>entry. rx (fst entry) (name ev) \<noteq> None) rest" by simp
  show ?case
    using Cons.IH [OF r] e b
    by (cases b) (auto simp: call_listeners_append split: result.splits)
qed

text \<open>The matcher and the anchored reading of a match agree.\<close>

lemma match_items_skip:
  "match_items b r s \<Longrightarrow> match_items b (Rep a Opt # r) s"
  "match_items b r s \<Longrightarrow> match_items b (Rep a Star # r) s"
  by (cases s; simp)+

lemma spans_match_items: "spans b its u v \<Longrightarrow> match_items b its (u @ v)"
  by (induction b its u v rule: spans.induct) (auto intro: match_items_skip)

lemma match_items_spans_ex:
  "match_items b its s \<Longrightarrow> \<exists>u v. s = u @ v \<and> spans b its u v"
proof (induction b its s rule: match_items.induct)
  case (1 b s)
  have "s = [] @ s \<and> spans b [] [] s" by simp
  then show ?case by blast
next
  case (2 b r s)
  then show ?case by auto
next
  case (3 b r s)
  then show ?case by auto
next
  case (4 b a r)
  then show ?case by simp
next
  case (5 b a r c cs)
  then obtain u v where "cs = u @ v" "spans False r u v" by auto
  with 5 have "c # cs = (c # u) @ v \<and> spans b (Rep a Once # r) (c # u) v" by simp
  then show ?case by blast
next
  case (6 b a r)
  then show ?case by simp
next
  case (7 b a r c cs)
  show ?case
  proof (cases "atom_ok a c \<and> match_items False r cs")
    case True
    with 7 obtain u v where "cs = u @ v" "spans False r u v" by auto
    with True have "c # cs = (c # u) @ v \<and> spans b (Rep a Opt # r) (c # u) v" by simp
    then show ?thesis by blast
  next
    case False
    with 7 obtain u v where uv: "c # cs = u @ v" "spans b r u v" by auto
    then have "spans b (Rep a Opt # r) u v" by (cases u) auto
    with uv show ?thesis by blast
  qed
next
  case (8 b a r)
  then show ?case by simp
next
  case (9 b a r c cs)
  show ?case
  proof (cases "atom_ok a c \<and> match_items False (Rep a Star # r) cs")
    case True
    with 9 obtain u v where "cs = u @ v" "spans False (Rep a Star # r) u v" by auto
    with True have "c # cs = (c # u) @ v \<and> spans b (Rep a Star # r) (c # u) v" by simp
    then show ?thesis by blast
  next
    case False
    with 9 obtain u v where uv: "c # cs = u @ v" "spans b r u v" by auto
    then have "spans b (Rep a Star # r) u v" by (cases u) auto
    with uv show ?thesis by blast
  qed
next
  case (10 b a r)
  then show ?case by simp
next
  case (11 b a r c cs)
  then obtain u v where "cs = u @ v" "spans False (Rep a Star # r) u v" by auto
  with 11 have "c # cs = (c # u) @ v \<and> spans b (Rep a Plus # r) (c # u) v" by simp
  then show ?case by blast
qed

lemma match_items_spans:
  "match_items b its s = (\<exists>u v. s = u @ v \<and> spans b its u v)"
  using spans_match_items match_items_spans_ex by blast

text \<open>Anchors and lazy repetitions, as \<^verbatim>\<open>re.match\<close> treats them.\<close>

lemma anchors_and_lazy_repetitions:
  "re_match ''^x'' ''xy'' = Some True"
  "re_match ''a^b'' ''ab'' = Some False"
  "re_match ''x$'' ''xy'' = Some False"
  "re_match ''x$'' (''x'' @ [CHR 0x0A]) = Some True"
  "re_match ''a*?'' ''b'' = Some True"
  "re_match ''y'' ''xy'' = Some False"
  by (simp_all add: re_match_def backslash_def alnum_def)

text \<open>
  The two loops of \<^verbatim>\<open>notify_listeners\<close> as one sequence of calls, which ends at the first
  exception.
\<close>

lemma fold_raised:
  assumes "\<And>l e s. f l (Raises e s) = Raises e s"
  shows "fold f ls (Raises e s) = Raises e s"
  by (induction ls) (simp_all add: assms)

lemma fold_call_listeners:
  assumes r: "\<And>l e s. f l (Raises e s) = Raises e s"
    and c: "\<And>l u s. f l (Returns u s) = call_listener ext l ev s"
  shows "fold f ls (Returns () self) = call_listeners ext ls ev self"
proof (induction ls arbitrary: self)
  case Nil
  show ?case by simp
next
  case (Cons l ls)
  show ?case
  proof (cases "call_listener ext l ev self")
    case (Returns u s')
    then show ?thesis using Cons.IH [of s'] by (cases u) (simp add: c)
  next
    case (Raises e s')
    then show ?thesis by (simp add: c fold_raised [of f, OF r])
  qed
qed

lemma notify_items_delivery:
  "notify_items rx ext tbl ev self =
     (case call_listeners ext
             (concat (map snd (filter (\<lambda>entry. rx (fst entry) (name ev) = Some True)
                (takeWhile (\<lambda>entry. rx (fst entry) (name ev) \<noteq> None) tbl)))) ev self of
        Raises e s \<Rightarrow> Raises e s
      | Returns u s \<Rightarrow>
          if list_all (\<lambda>entry. rx (fst entry) (name ev) \<noteq> None) tbl then Returns () s
          else Raises Re_error s)"
proof (induction tbl arbitrary: self)
  case Nil
  show ?case by simp
next
  case (Cons entry rest)
  obtain p ls where e: "entry = (p, ls)" by (cases entry)
  show ?case
  proof (cases "rx p (name ev)")
    case None
    with e show ?thesis by simp
  next
    case (Some m)
    show ?thesis
    proof (cases m)
      case False
      with Some e Cons.IH show ?thesis by (simp del: not_None_eq cong: result.case_cong)
    next
      case True
      show ?thesis
      proof (cases "call_listeners ext ls ev self")
        case (Raises x s')
        with True Some e show ?thesis
          by (simp add: call_listeners_append del: not_None_eq cong: result.case_cong)
      next
        case (Returns u s')
        with True Some e Cons.IH [of s'] show ?thesis
          by (simp add: call_listeners_append del: not_None_eq cong: result.case_cong)
      qed
    qed
  qed
qed

lemma notify_items_raise:
  "notify_items rx ext tbefore ev self = Returns () self0 \<Longrightarrow>
   rx p (name ev) = Some True \<Longrightarrow>
   call_listeners ext before ev self0 = Returns () self1 \<Longrightarrow>
   call_listener ext l ev self1 = Raises e self2 \<Longrightarrow>
   notify_items rx ext (tbefore @ (p, before @ l # after) # tafter) ev self = Raises e self2"
proof (induction tbefore arbitrary: self)
  case Nil
  then show ?case by (simp add: call_listeners_append)
next
  case (Cons entry rest)
  obtain q ls where e: "entry = (q, ls)" by (cases entry)
  show ?case using Cons e
    by (auto split: option.splits bool.splits result.splits)
qed

lemma raw_until_shutdown:
  "list_all (\<lambda>e. name e \<noteq> ''kyco/core.shutdown'') before \<Longrightarrow>
   name s = ''kyco/core.shutdown'' \<Longrightarrow>
   raw_event_handler rx ext (before @ s # after) self = ended (notify_all rx ext before self)"
  by (induction before arbitrary: self) (auto split: result.splits)

lemma app_until_shutdown:
  "list_all (\<lambda>e. name e \<noteq> ''kyco/core.shutdown'') before \<Longrightarrow>
   name s = ''kyco/core.shutdown'' \<Longrightarrow>
   app_event_handler rx ext (before @ s # after) self
     = ended (notify_all rx ext (before @ [s]) self)"
  by (induction before arbitrary: self) (auto split: result.splits)

text \<open>The app handler is the loop of the specification, with the handlers' shutdown name.\<close>

lemma app_event_handler_is_spec_loop:
  "app_event_handler rx ext evs self
     = dispatcher_loop_spec ''kyco/core.shutdown'' rx ext evs self"
  by (induction evs arbitrary: self) (auto split: result.splits)

subsection \<open>Shutdown of the handler loops\<close>

text \<open>
  Claim C1, as stated: the loops end at the first event named \<^verbatim>\<open>kytos/core.shutdown\<close>. The
  name the handlers compare with is \<^verbatim>\<open>kyco/core.shutdown\<close>. With the events \<^verbatim>\<open>a.b\<close>,
  \<^verbatim>\<open>kytos/core.shutdown\<close>, \<^verbatim>\<open>a.b\<close> on the raw buffer and a listener counting \<^verbatim>\<open>a.b\<close>, the
  handler delivers all three events, the count is 2, and the thread waits for a fourth
  event.
\<close>

theorem raw_handler_ignores_kytos_shutdown:
  "raw_event_handler re_match counting
     [named ''a.b'', named ''kytos/core.shutdown'', named ''a.b''] counter_ab
   = Blocked (counter_ab\<lparr>world := 2\<rparr>)"
  by (simp add: scenario_defs)

text \<open>
  Claim C1, amended. When an event named \<^verbatim>\<open>kyco/core.shutdown\<close> is on the buffer, after
  events that do not have that name, both handlers end there, whatever follows on the
  buffer: the raw handler has delivered the events before the shutdown event, the app
  handler those and the shutdown event itself. A handler ends earlier only when a listener
  or the matcher raises, and never waits.
\<close>

theorem handlers_stop_at_shutdown:
  assumes "list_all (\<lambda>e. name e \<noteq> ''kyco/core.shutdown'') before"
    and "name s = ''kyco/core.shutdown''"
  shows "raw_event_handler rx ext (before @ s # after) self
           = ended (notify_all rx ext before self)
         \<and> app_event_handler rx ext (before @ s # after) self
           = ended (notify_all rx ext (before @ [s]) self)"
  using assms by (simp add: raw_until_shutdown app_until_shutdown)

theorem handlers_stop_at_shutdown_witness:
  "list_all (\<lambda>e. name e \<noteq> ''kyco/core.shutdown'') [named ''a.b'']
   \<and> name (named ''kyco/core.shutdown'') = ''kyco/core.shutdown''
   \<and> raw_event_handler re_match counting
       ([named ''a.b''] @ named ''kyco/core.shutdown'' # [named ''a.b'']) counter_ab
     = Stopped (counter_ab\<lparr>world := 1\<rparr>)
   \<and> app_event_handler re_match counting
       ([named ''a.b''] @ named ''kyco/core.shutdown'' # [named ''a.b'']) counter_ab
     = Stopped (counter_ab\<lparr>world := 1\<rparr>)"
  using handlers_stop_at_shutdown
          [of "[named ''a.b'']" "named ''kyco/core.shutdown''" re_match counting
              "[named ''a.b'']" counter_ab]
  by (simp add: scenario_defs)

subsection \<open>A listener that raises\<close>

text \<open>
  Claim C2, as stated: an exception of a listener is caught, and the other listeners still
  receive the event. With \<^verbatim>\<open>L1\<close> (raises) and \<^verbatim>\<open>L2\<close> (records) registered in this order for
  the pattern \<^verbatim>\<open>x\<close>, the exception of \<^verbatim>\<open>L1\<close> leaves \<^verbatim>\<open>notify_listeners\<close> with nothing recorded,
  and it ends the handler thread before the next event, \<^verbatim>\<open>y\<close>, is delivered to \<^verbatim>\<open>L3\<close>.
\<close>

theorem listener_exception_not_caught:
  "notify_listeners re_match recording (named ''x'') faulty_x
     = Raises (Exception ''L1 failed'') faulty_x
   \<and> app_event_handler re_match recording [named ''x'', named ''y''] faulty_x
     = Died (Exception ''L1 failed'') faulty_x
   \<and> raw_event_handler re_match recording [named ''x'', named ''y''] faulty_x
     = Died (Exception ''L1 failed'') faulty_x
   \<and> world faulty_x = []"
  by (simp add: scenario_defs)

text \<open>
  Claim C2, amended. When a listener raises, the exception leaves \<^verbatim>\<open>notify_listeners\<close> with
  the state the listener left: the listeners before it have been called, the listeners
  after it in the same list and the listeners of later patterns are not called, and the
  handler thread that delivered the event ends with that exception, so that the events
  behind it on the buffer are not delivered.
\<close>

theorem listener_exception_propagates:
  assumes "events_listeners self = tbefore @ (p, before @ l # after) # tafter"
    and "notify_items rx ext tbefore ev self = Returns () self0"
    and "rx p (name ev) = Some True"
    and "call_listeners ext before ev self0 = Returns () self1"
    and "call_listener ext l ev self1 = Raises e self2"
  shows "notify_listeners rx ext ev self = Raises e self2
         \<and> app_event_handler rx ext (ev # evs) self = Died e self2
         \<and> (name ev \<noteq> ''kyco/core.shutdown''
              \<longrightarrow> raw_event_handler rx ext (ev # evs) self = Died e self2)"
proof -
  have "notify_listeners rx ext ev self = Raises e self2"
    unfolding notify_listeners_def assms(1)
    by (rule notify_items_raise [OF assms(2) assms(3) assms(4) assms(5)])
  then show ?thesis by simp
qed

theorem listener_exception_propagates_witness:
  "events_listeners faulty_x
     = [(''kyco/core.connection.new'', [New_connection])]
       @ (''x'', [] @ NApp_method ''L1'' # [NApp_method ''L2'']) # [(''y'', [NApp_method ''L3''])]
   \<and> notify_listeners re_match recording (named ''x'') faulty_x
     = Raises (Exception ''L1 failed'') faulty_x
   \<and> app_event_handler re_match recording (named ''x'' # [named ''y'']) faulty_x
     = Died (Exception ''L1 failed'') faulty_x
   \<and> raw_event_handler re_match recording (named ''x'' # [named ''y'']) faulty_x
     = Died (Exception ''L1 failed'') faulty_x"
proof -
  have t: "events_listeners faulty_x
     = [(''kyco/core.connection.new'', [New_connection])]
       @ (''x'', [] @ NApp_method ''L1'' # [NApp_method ''L2'']) # [(''y'', [NApp_method ''L3''])]"
    by (simp add: scenario_defs)
  have n: "notify_items re_match recording [(''kyco/core.connection.new'', [New_connection])]
             (named ''x'') faulty_x = Returns () faulty_x"
    by (simp add: scenario_defs)
  have m: "re_match ''x'' (name (named ''x'')) = Some True"
    by (simp add: scenario_defs)
  have b: "call_listeners recording [] (named ''x'') faulty_x = Returns () faulty_x"
    by simp
  have r: "call_listener recording (NApp_method ''L1'') (named ''x'') faulty_x
             = Raises (Exception ''L1 failed'') faulty_x"
    by (simp add: call_listener_def recording_def)
  have x: "name (named ''x'') \<noteq> ''kyco/core.shutdown''"
    by (simp add: named_def)
  from listener_exception_propagates [OF t n m b r, of "[named ''y'']"] t x show ?thesis
    by simp
qed

subsection \<open>The two handler loops compared\<close>

text \<open>
  Claim C3, as stated: both loops deliver exactly the same events. With a listener
  subscribed to \<^verbatim>\<open>kyco/core.shutdown\<close> and that event alone on the buffer, the raw handler
  stops with nothing delivered, while the app handler, like the loop the specification
  describes, stops after delivering the event.
\<close>

theorem handlers_differ_on_shutdown_event:
  "raw_event_handler re_match recording [named ''kyco/core.shutdown''] on_shutdown
     = Stopped on_shutdown
   \<and> app_event_handler re_match recording [named ''kyco/core.shutdown''] on_shutdown
     = Stopped (on_shutdown\<lparr>world := [named ''kyco/core.shutdown'']\<rparr>)
   \<and> dispatcher_loop_spec ''kyco/core.shutdown'' re_match recording
       [named ''kyco/core.shutdown''] on_shutdown
     = Stopped (on_shutdown\<lparr>world := [named ''kyco/core.shutdown'']\<rparr>)
   \<and> world on_shutdown = []"
  by (simp add: scenario_defs)

text \<open>
  Claim C3, amended. On every sequence of events the app handler does what the raw handler
  does, and where the raw handler leaves its loop at the shutdown event without notifying
  anyone, the app handler first passes that event to \<^verbatim>\<open>notify_listeners\<close>. So the two loops
  deliver the same events up to the first shutdown event, and the app loop delivers that
  event as well.
\<close>

theorem app_handler_is_raw_handler_plus_shutdown:
  "app_event_handler rx ext evs self =
     (case raw_event_handler rx ext evs self of
        Stopped self' \<Rightarrow>
          (case find (\<lambda>e. name e = ''kyco/core.shutdown'') evs of
             None \<Rightarrow> Stopped self'
           | Some s \<Rightarrow> ended (notify_listeners rx ext s self'))
      | Blocked self' \<Rightarrow> Blocked self'
      | Died e self' \<Rightarrow> Died e self')"
  by (induction evs arbitrary: self) (auto split: result.splits thread.splits)

subsection \<open>Matching and order of delivery\<close>

text \<open>
  Claim C5, as stated: for every listener table, each listener of a matching pattern is
  invoked. With \<^verbatim>\<open>L1\<close> (raises) under the pattern \<^verbatim>\<open>kytos\<close> and \<^verbatim>\<open>L2\<close> under the pattern
  \<^verbatim>\<open>kytos/core\<close>, both without special characters, the name \<^verbatim>\<open>kytos/core.connection.new\<close>
  begins with both patterns, but the exception of \<^verbatim>\<open>L1\<close> ends the delivery and \<^verbatim>\<open>L2\<close> is not
  invoked. With a pattern that \<^verbatim>\<open>re.match\<close> rejects in the table before the pattern \<^verbatim>\<open>x\<close>, the
  listener of \<^verbatim>\<open>x\<close> is not invoked for an event named \<^verbatim>\<open>x\<close> either.
\<close>

theorem matching_listener_not_invoked:
  "literal ''kytos/core''
   \<and> prefix ''kytos/core'' (name (named ''kytos/core.connection.new''))
   \<and> re_match ''kytos/core'' (name (named ''kytos/core.connection.new'')) = Some True
   \<and> notify_listeners re_match recording (named ''kytos/core.connection.new'') two_prefixes
       = Raises (Exception ''L1 failed'') two_prefixes
   \<and> world two_prefixes = []
   \<and> re_match ''x'' (name (named ''x'')) = Some True
   \<and> notify_listeners re_match recording (named ''x'') invalid_pattern
       = Raises Re_error invalid_pattern
   \<and> world invalid_pattern = []"
  by (simp add: scenario_defs literal_def special_def)

text \<open>
  Claim C5, amended. \<^verbatim>\<open>notify_listeners\<close> goes through the table in order and asks
  \<^verbatim>\<open>re.match\<close> for each pattern and the event's name. It invokes the listeners of the matching
  patterns, in the order of the table and, within a pattern, in registration order, each
  with the event as its sole argument: the controller's own \<^verbatim>\<open>new_connection\<close> is called
  on the controller, a NApp method on the NApp part of the state. The first exception of a
  listener ends the delivery and leaves \<^verbatim>\<open>notify_listeners\<close>; so does \<^verbatim>\<open>re.error\<close> at the first
  pattern that \<^verbatim>\<open>re.match\<close> rejects, after the listeners of the matching patterns before it
  have been invoked. When nothing raises, every listener of every matching pattern has
  been invoked. Matching is anchored at the beginning of the name: a pattern without
  special characters matches exactly the names that begin with it, and a pattern of the
  fragment matches a name exactly when it spans some text with which the name begins.
\<close>

theorem notify_listeners_delivery:
  "(let valid = (\<lambda>entry. rx (fst entry) (name ev) \<noteq> None);
        matching = filter (\<lambda>entry. rx (fst entry) (name ev) = Some True)
                     (takeWhile valid (events_listeners self));
        invoke = (\<lambda>l r. case r of
                    Raises e s \<Rightarrow> Raises e s
                  | Returns u s \<Rightarrow>
                      (case l of
                         New_connection \<Rightarrow> new_connection ev s
                       | NApp_method h \<Rightarrow>
                           (case ext h ev (world s) of
                              Raises e w \<Rightarrow> Raises e (s\<lparr>world := w\<rparr>)
                            | Returns u' w \<Rightarrow> Returns () (s\<lparr>world := w\<rparr>))))
    in notify_listeners rx ext ev self =
         (case fold invoke (concat (map snd matching)) (Returns () self) of
            Raises e s \<Rightarrow> Raises e s
          | Returns u s \<Rightarrow>
              if list_all valid (events_listeners self) then Returns () s
              else Raises Re_error s))
   \<and> (literal p \<longrightarrow> re_match p n = Some (prefix p n))
   \<and> (re_match p n = Some True \<longleftrightarrow>
        (\<exists>ts its u v. tokens p = Some ts \<and> items ts = Some its
           \<and> n = u @ v \<and> spans True its u v))"
proof (intro conjI)
  let ?invoke = "\<lambda>l r. case r of
                    Raises e s \<Rightarrow> Raises e s
                  | Returns u s \<Rightarrow>
                      (case l of
                         New_connection \<Rightarrow> new_connection ev s
                       | NApp_method h \<Rightarrow>
                           (case ext h ev (world s) of
                              Raises e w \<Rightarrow> Raises e (s\<lparr>world := w\<rparr>)
                            | Returns u' w \<Rightarrow> Returns () (s\<lparr>world := w\<rparr>)))"
  have f: "\<And>ls. fold ?invoke ls (Returns () self) = call_listeners ext ls ev self"
    by (rule fold_call_listeners) (simp_all add: call_listener_def split: listener.splits)
  show "let valid = (\<lambda>entry. rx (fst entry) (name ev) \<noteq> None);
        matching = filter (\<lambda>entry. rx (fst entry) (name ev) = Some True)
                     (takeWhile valid (events_listeners self));
        invoke = ?invoke
    in notify_listeners rx ext ev self =
         (case fold invoke (concat (map snd matching)) (Returns () self) of
            Raises e s \<Rightarrow> Raises e s
          | Returns u s \<Rightarrow>
              if list_all valid (events_listeners self) then Returns () s
              else Raises Re_error s)"
    unfolding Let_def f notify_listeners_def by (rule notify_items_delivery)
next
  show "literal p \<longrightarrow> re_match p n = Some (prefix p n)"
    by (simp add: re_match_literal)
next
  show "re_match p n = Some True \<longleftrightarrow>
        (\<exists>ts its u v. tokens p = Some ts \<and> items ts = Some its
           \<and> n = u @ v \<and> spans True its u v)"
    by (auto simp: re_match_def match_items_spans split: option.splits)
qed

theorem notify_listeners_delivery_witness:
  "notify_listeners re_match recording (connection_new 2) core_listener
     = Returns () (core_listener\<lparr>connections := [(''10.0.0.1'', 6633) \<mapsto> 2],
                                  world := [connection_new 2]\<rparr>)
   \<and> literal ''kyco/core''
   \<and> re_match ''kyco/core'' ''kyco/core.connection.new'' = Some True
   \<and> re_match ''kyco/core'' ''kytos/core.connection.new'' = Some False
   \<and> (\<exists>ts its u v. tokens ''kyco/core'' = Some ts \<and> items ts = Some its
         \<and> ''kyco/core.connection.new'' = u @ v \<and> spans True its u v)"
proof -
  note t = notify_listeners_delivery
             [where rx = re_match and ev = "connection_new 2" and self = core_listener
                and ext = recording and p = "''kyco/core''"]
  have l: "literal ''kyco/core''"
    by (simp add: literal_def special_def backslash_def)
  from t [where n = "''kyco/core.connection.new''"] l
  have r1: "re_match ''kyco/core'' ''kyco/core.connection.new''
              = Some (prefix ''kyco/core'' ''kyco/core.connection.new'')"
    by blast
  from t [where n = "''kytos/core.connection.new''"] l
  have r2: "re_match ''kyco/core'' ''kytos/core.connection.new''
              = Some (prefix ''kyco/core'' ''kytos/core.connection.new'')"
    by blast
  from t [where n = "''kyco/core.connection.new''"] r1
  have sp: "\<exists>ts its u v. tokens ''kyco/core'' = Some ts \<and> items ts = Some its
         \<and> ''kyco/core.connection.new'' = u @ v \<and> spans True its u v"
    by simp
  have d: "notify_listeners re_match recording (connection_new 2) core_listener
     = Returns () (core_listener\<lparr>connections := [(''10.0.0.1'', 6633) \<mapsto> 2],
                                  world := [connection_new 2]\<rparr>)"
    using t [where n = "''kyco/core.connection.new''"]
    by (simp add: Let_def scenario_defs connection_new_def new_connection_def
          get_connection_by_id_def get_switch_by_dpid_def two_connections_def
          fresh_connection_def del: not_None_eq)
  from d l r1 r2 sp show ?thesis by simp
qed

text \<open>
  The scenario of the claim: a listener subscribed to \<^verbatim>\<open>kytos/core\.connection\..*\<close> receives
  the events \<^verbatim>\<open>kytos/core.connection.new\<close> and \<^verbatim>\<open>kytos/core.connection.lost\<close>, in this order,
  and not \<^verbatim>\<open>kytos/core.other\<close>.
\<close>

lemma connection_pattern_scenario:
  "raw_event_handler re_match recording
     [named ''kytos/core.connection.new'', named ''kytos/core.connection.lost'',
      named ''kytos/core.other''] on_connection
   = Blocked (on_connection
       \<lparr>world := [named ''kytos/core.connection.new'', named ''kytos/core.connection.lost'']\<rparr>)"
  by (simp add: scenario_defs)

section \<open>Properties of loading and unloading\<close>

subsection \<open>Auxiliary facts about the listener table\<close>

lemmas napp_defs =
  load_napp_def unload_napp_def napps_dir_def napp_on_x_def started_def Controller_init_def
  register_def unregister_def table_after_def and_then_def

lemma map_of_register:
  "map_of (register (p, ls) tbl) q =
     (if q = p then Some ((case map_of tbl p of None \<Rightarrow> [] | Some cur \<Rightarrow> cur) @ ls)
      else map_of tbl q)"
  by (simp add: register_def update_conv' split: option.splits)

lemma map_of_register_all:
  "distinct (map fst ls) \<Longrightarrow>
   map_of (register_all ls tbl) q =
     (case map_of ls q of
        None \<Rightarrow> map_of tbl q
      | Some l \<Rightarrow> Some ((case map_of tbl q of None \<Rightarrow> [] | Some cur \<Rightarrow> cur) @ l))"
proof (induction ls arbitrary: tbl)
  case Nil
  show ?case by simp
next
  case (Cons entry rest)
  obtain p l where e: "entry = (p, l)" by (cases entry)
  from Cons.prems e have d: "distinct (map fst rest)" and n: "p \<notin> fst ` set rest" by auto
  from n have m: "map_of rest p = None" by (simp add: map_of_eq_None_iff)
  show ?case
    using Cons.IH [OF d, of "register (p, l) tbl"] e m
    by (auto simp: map_of_register split: option.splits)
qed

lemma map_of_register_all_notin:
  "p \<notin> fst ` set ls \<Longrightarrow> map_of (register_all ls tbl) p = map_of tbl p"
proof (induction ls arbitrary: tbl)
  case Nil
  show ?case by simp
next
  case (Cons entry rest)
  obtain q l where e: "entry = (q, l)" by (cases entry)
  with Cons show ?case by (auto simp: map_of_register)
qed

lemma update_update_commute:
  "p \<in> fst ` set tbl \<Longrightarrow> p \<noteq> q \<Longrightarrow>
   AList.update p v (AList.update q v' tbl) = AList.update q v' (AList.update p v tbl)"
  by (induction tbl) auto

lemma update_register_commute:
  "p \<in> fst ` set tbl \<Longrightarrow> p \<noteq> q \<Longrightarrow>
   AList.update p v (register (q, ms) tbl) = register (q, ms) (AList.update p v tbl)"
  by (auto simp: register_def update_conv' split: option.splits
        intro: update_update_commute)

lemma update_register_all_commute:
  "p \<in> fst ` set tbl \<Longrightarrow> p \<notin> fst ` set ls \<Longrightarrow>
   AList.update p v (register_all ls tbl) = register_all ls (AList.update p v tbl)"
proof (induction ls arbitrary: tbl)
  case Nil
  show ?case by simp
next
  case (Cons entry rest)
  obtain q l where e: "entry = (q, l)" by (cases entry)
  from Cons.prems e have pq: "p \<noteq> q" and n: "p \<notin> fst ` set rest" by auto
  have i: "p \<in> fst ` set (register (q, l) tbl)"
    using Cons.prems(1) by (simp add: register_def dom_update split: option.splits)
  show ?case
    using Cons.IH [OF i n] e pq Cons.prems(1)
    by (simp add: update_register_commute)
qed

lemma delete_register_commute:
  "p \<noteq> q \<Longrightarrow> AList.delete p (register (q, ms) tbl) = register (q, ms) (AList.delete p tbl)"
  by (simp add: register_def delete_update split: option.splits)

lemma delete_register_all_commute:
  "p \<notin> fst ` set ls \<Longrightarrow>
   AList.delete p (register_all ls tbl) = register_all ls (AList.delete p tbl)"
proof (induction ls arbitrary: tbl)
  case Nil
  show ?case by simp
next
  case (Cons entry rest)
  obtain q l where e: "entry = (q, l)" by (cases entry)
  with Cons show ?case by (auto simp: delete_register_commute)
qed

lemma remove_listeners_appended:
  "map_of tbl p = Some (cur @ ls) \<Longrightarrow> set cur \<inter> set ls = {} \<Longrightarrow>
   remove_listeners p ls tbl = Returns () (AList.update p cur tbl)"
proof (induction ls arbitrary: tbl)
  case Nil
  then show ?case by (simp add: update_triv)
next
  case (Cons x rest)
  from Cons.prems have x: "x \<notin> set cur" and r: "set cur \<inter> set rest = {}" by auto
  have m: "map_of (AList.update p (cur @ rest) tbl) p = Some (cur @ rest)"
    by (simp add: update_conv')
  show ?case
    using Cons.IH [OF m r] Cons.prems(1) x
    by (simp add: remove1_append)
qed

lemma unregister_register_all:
  assumes n: "p \<notin> fst ` set rest"
    and f: "case map_of tbl p of None \<Rightarrow> True
            | Some cur \<Rightarrow> cur \<noteq> [] \<and> list_all (\<lambda>l. l \<notin> set cur) ls"
  shows "unregister (p, ls) (register_all rest (register (p, ls) tbl))
           = Returns () (register_all rest tbl)"
proof (cases "map_of tbl p")
  case None
  then have k: "p \<notin> fst ` set tbl" by (simp add: map_of_eq_None_iff)
  let ?Y = "register_all rest (register (p, ls) tbl)"
  have m: "map_of ?Y p = Some ([] @ ls)"
    using None n by (simp add: map_of_register_all_notin map_of_register)
  have r: "remove_listeners p ls ?Y = Returns () (AList.update p [] ?Y)"
    by (rule remove_listeners_appended [OF m]) simp
  have d: "AList.delete p ?Y = register_all rest tbl"
    using n k None by (simp add: delete_register_all_commute register_def delete_update_same)
  show ?thesis
    using r d by (simp add: unregister_def update_conv' delete_update_same)
next
  case (Some cur)
  with f have c: "cur \<noteq> []" and s: "set cur \<inter> set ls = {}"
    by (auto simp: list_all_iff)
  from Some have k: "p \<in> fst ` set tbl" by (force dest: map_of_SomeD)
  let ?X = "register (p, ls) tbl"
  let ?Y = "register_all rest ?X"
  have kx: "p \<in> fst ` set ?X" by (simp add: register_def dom_update split: option.splits)
  have m: "map_of ?Y p = Some (cur @ ls)"
    using Some n by (simp add: map_of_register_all_notin map_of_register)
  have r: "remove_listeners p ls ?Y = Returns () (AList.update p cur ?Y)"
    by (rule remove_listeners_appended [OF m s])
  have "AList.update p cur ?Y = register_all rest (AList.update p cur ?X)"
    by (rule update_register_all_commute [OF kx n])
  also have "AList.update p cur ?X = tbl"
    using Some by (simp add: register_def update_triv)
  finally have u: "AList.update p cur ?Y = register_all rest tbl" .
  have mu: "map_of (AList.update p cur ?Y) p = Some cur" by (simp add: update_conv')
  show ?thesis
    using r c mu u by (simp add: unregister_def)
qed

lemma unregister_all_register_all:
  "distinct (map fst ls) \<Longrightarrow> fresh_for tbl ls \<Longrightarrow>
   unregister_all ls (register_all ls tbl) = Returns () tbl"
proof (induction ls arbitrary: tbl)
  case Nil
  show ?case by simp
next
  case (Cons entry rest)
  obtain p l where e: "entry = (p, l)" by (cases entry)
  from Cons.prems e have d: "distinct (map fst rest)" and n: "p \<notin> fst ` set rest" by auto
  from Cons.prems e have f: "case map_of tbl p of None \<Rightarrow> True
            | Some cur \<Rightarrow> cur \<noteq> [] \<and> list_all (\<lambda>l. l \<notin> set cur) l"
    and fr: "fresh_for tbl rest"
    by (auto simp: fresh_for_def split: option.splits)
  show ?case
    using unregister_register_all [OF n f] Cons.IH [OF d fr] e
    by simp
qed

subsection \<open>Failures while loading\<close>

text \<open>
  Claim C7, as stated: when \<^verbatim>\<open>start()\<close> fails, the listener table is left unchanged. Loading
  \<^verbatim>\<open>kytos/bad\<close>, whose \<^verbatim>\<open>start()\<close> raises, into the initial controller ends with that
  exception and with the NApp's listener for \<^verbatim>\<open>x\<close> in the table.
\<close>

theorem load_napp_start_failure_keeps_listeners:
  "table_after (load_napp napps_dir ''kytos/bad'' started)
     = (Some (Exception ''start failed''),
        [(''kyco/core.connection.new'', [New_connection]),
         (''x'', [NApp_method ''bad.on_x''])])
   \<and> events_listeners started = [(''kyco/core.connection.new'', [New_connection])]"
  by (simp add: napp_defs)

text \<open>
  Claim C7, amended. When the instantiation fails, \<^verbatim>\<open>load_napp\<close> raises with the listener
  table and the NApp registry as they were. Registration follows the instantiation and
  precedes \<^verbatim>\<open>start()\<close>: when \<^verbatim>\<open>start()\<close> raises, the exception leaves \<^verbatim>\<open>load_napp\<close> with the
  NApp in the registry and each of its listener lists at the end of the list of its
  pattern.
\<close>

theorem load_napp_failures:
  "(loader napp_name (world self) = Raises e w \<longrightarrow>
      (\<exists>self'. load_napp loader napp_name self = Raises e self'
         \<and> events_listeners self' = events_listeners self
         \<and> napps self' = napps self))
   \<and> (loader napp_name (world self) = Returns napp w \<and> start napp w = Raises e w' \<longrightarrow>
      (\<exists>self'. load_napp loader napp_name self = Raises e self'
         \<and> napps self' napp_name = Some napp
         \<and> events_listeners self'
             = register_all (napp_listeners napp) (events_listeners self)
         \<and> (distinct (map fst (napp_listeners napp)) \<longrightarrow>
              (\<forall>entry \<in> set (napp_listeners napp).
                 \<exists>cur. map_of (events_listeners self') (fst entry) = Some (cur @ snd entry)))))"
proof (intro conjI impI)
  assume "loader napp_name (world self) = Raises e w"
  then show "\<exists>self'. load_napp loader napp_name self = Raises e self'
         \<and> events_listeners self' = events_listeners self
         \<and> napps self' = napps self"
    by (simp add: load_napp_def)
next
  assume a: "loader napp_name (world self) = Returns napp w \<and> start napp w = Raises e w'"
  let ?s = "self\<lparr>world := w', napps := (napps self)(napp_name \<mapsto> napp),
                 events_listeners := register_all (napp_listeners napp) (events_listeners self)\<rparr>"
  have l: "load_napp loader napp_name self = Raises e ?s"
    using a by (simp add: load_napp_def)
  have r: "distinct (map fst (napp_listeners napp)) \<longrightarrow>
              (\<forall>entry \<in> set (napp_listeners napp).
                 \<exists>cur. map_of (events_listeners ?s) (fst entry) = Some (cur @ snd entry))"
  proof (intro impI ballI)
    fix entry
    assume d: "distinct (map fst (napp_listeners napp))" and i: "entry \<in> set (napp_listeners napp)"
    from d i have m: "map_of (napp_listeners napp) (fst entry) = Some (snd entry)"
      by (cases entry) simp
    show "\<exists>cur. map_of (events_listeners ?s) (fst entry) = Some (cur @ snd entry)"
      by (simp add: map_of_register_all [OF d] m)
  qed
  show "\<exists>self'. load_napp loader napp_name self = Raises e self'
         \<and> napps self' napp_name = Some napp
         \<and> events_listeners self'
             = register_all (napp_listeners napp) (events_listeners self)
         \<and> (distinct (map fst (napp_listeners napp)) \<longrightarrow>
              (\<forall>entry \<in> set (napp_listeners napp).
                 \<exists>cur. map_of (events_listeners self') (fst entry) = Some (cur @ snd entry)))"
    using l r by (intro exI [of _ ?s]) simp
qed

theorem load_napp_failures_witness:
  "napps_dir ''kytos/none'' (world started) = Raises FileNotFoundError []
   \<and> table_after (load_napp napps_dir ''kytos/none'' started)
       = (Some FileNotFoundError, events_listeners started)
   \<and> napps_dir ''kytos/bad'' (world started) = Returns (napp_on_x ''bad.on_x'' False) []
   \<and> start (napp_on_x ''bad.on_x'' False) [] = Raises (Exception ''start failed'') []
   \<and> table_after (load_napp napps_dir ''kytos/bad'' started)
       = (Some (Exception ''start failed''),
          register_all (napp_listeners (napp_on_x ''bad.on_x'' False)) (events_listeners started))"
proof -
  have a: "napps_dir ''kytos/none'' (world started) = Raises FileNotFoundError []"
    by (simp add: napp_defs)
  have b: "napps_dir ''kytos/bad'' (world started) = Returns (napp_on_x ''bad.on_x'' False) []
           \<and> start (napp_on_x ''bad.on_x'' False) [] = Raises (Exception ''start failed'') []"
    by (simp add: napp_defs)
  from load_napp_failures [of napps_dir "''kytos/none''" started FileNotFoundError "[]"] a
  have 1: "table_after (load_napp napps_dir ''kytos/none'' started)
       = (Some FileNotFoundError, events_listeners started)"
    by (auto simp: table_after_def)
  from load_napp_failures [of napps_dir "''kytos/bad''" started "Exception ''start failed''" "[]"
          "napp_on_x ''bad.on_x'' False" "[]"] b
  have 2: "table_after (load_napp napps_dir ''kytos/bad'' started)
       = (Some (Exception ''start failed''),
          register_all (napp_listeners (napp_on_x ''bad.on_x'' False)) (events_listeners started))"
    by (auto simp: table_after_def)
  from a b 1 2 show ?thesis by simp
qed

subsection \<open>Unloading and loading again\<close>

text \<open>
  Claim C9, as stated: for every loaded NApp, unloading and loading it again leaves the
  table as it was after its first load. After \<^verbatim>\<open>kytos/a\<close> and then \<^verbatim>\<open>kytos/b\<close> are loaded, both
  with a listener for \<^verbatim>\<open>x\<close>, reloading \<^verbatim>\<open>kytos/a\<close> puts its listener behind that of \<^verbatim>\<open>kytos/b\<close>:
  the table is neither the one after the first load of \<^verbatim>\<open>kytos/a\<close> nor the one before the
  reload.
\<close>

theorem reload_after_other_napp_reorders:
  "table_after (load_napp napps_dir ''kytos/a'' started)
     = (None, [(''kyco/core.connection.new'', [New_connection]),
               (''x'', [NApp_method ''a.on_x''])])
   \<and> table_after (and_then (load_napp napps_dir ''kytos/a'' started)
                             (load_napp napps_dir ''kytos/b''))
     = (None, [(''kyco/core.connection.new'', [New_connection]),
               (''x'', [NApp_method ''a.on_x'', NApp_method ''b.on_x''])])
   \<and> table_after (and_then (and_then (and_then (load_napp napps_dir ''kytos/a'' started)
                             (load_napp napps_dir ''kytos/b''))
                             (unload_napp ''kytos/a''))
                             (load_napp napps_dir ''kytos/a''))
     = (None, [(''kyco/core.connection.new'', [New_connection]),
               (''x'', [NApp_method ''b.on_x'', NApp_method ''a.on_x''])])"
  by (simp add: napp_defs)

text \<open>
  Claim C9, amended. Let \<^verbatim>\<open>load_napp(n)\<close> run on a table that is fresh for the listeners of
  the NApp, and let the instantiations, \<^verbatim>\<open>start()\<close> and \<^verbatim>\<open>shutdown()\<close> return normally, the
  second instance declaring the listeners of the first. Then \<^verbatim>\<open>unload_napp(n)\<close> right after
  the load succeeds and gives back the table from before the load, and the following
  \<^verbatim>\<open>load_napp(n)\<close> gives exactly the table the first load gave.
\<close>

theorem reload_restores_table:
  assumes "distinct (map fst (napp_listeners napp))"
    and "fresh_for (events_listeners self) (napp_listeners napp)"
    and "loader napp_name (world self) = Returns napp w1"
    and "start napp w1 = Returns () w2"
    and "shutdown napp w2 = Returns () w3"
    and "loader napp_name w3 = Returns napp' w4"
    and "napp_listeners napp' = napp_listeners napp"
    and "start napp' w4 = Returns () w5"
  shows "\<exists>self1 self2 self3.
           load_napp loader napp_name self = Returns () self1
         \<and> unload_napp napp_name self1 = Returns () self2
         \<and> load_napp loader napp_name self2 = Returns () self3
         \<and> events_listeners self2 = events_listeners self
         \<and> events_listeners self3 = events_listeners self1"
proof -
  let ?t1 = "register_all (napp_listeners napp) (events_listeners self)"
  let ?s1 = "self\<lparr>world := w2, napps := (napps self)(napp_name \<mapsto> napp),
                  events_listeners := ?t1\<rparr>"
  let ?s2 = "self\<lparr>world := w3, napps := (napps self)(napp_name := None),
                  events_listeners := events_listeners self\<rparr>"
  let ?s3 = "self\<lparr>world := w5, napps := (napps self)(napp_name \<mapsto> napp'),
                  events_listeners := ?t1\<rparr>"
  have 1: "load_napp loader napp_name self = Returns () ?s1"
    using assms(3,4) by (simp add: load_napp_def)
  have u: "unregister_all (napp_listeners napp) ?t1 = Returns () (events_listeners self)"
    by (rule unregister_all_register_all [OF assms(1) assms(2)])
  have 2: "unload_napp napp_name ?s1 = Returns () ?s2"
    using assms(5) u by (simp add: unload_napp_def)
  have 3: "load_napp loader napp_name ?s2 = Returns () ?s3"
    using assms(6,7,8) by (simp add: load_napp_def)
  show ?thesis
    using 1 2 3 by (intro exI [of _ ?s1] exI [of _ ?s2] exI [of _ ?s3]) simp
qed

theorem reload_restores_table_witness:
  "distinct (map fst (napp_listeners (napp_on_x ''a.on_x'' True)))
   \<and> fresh_for (events_listeners started) (napp_listeners (napp_on_x ''a.on_x'' True))
   \<and> napps_dir ''kytos/a'' (world started) = Returns (napp_on_x ''a.on_x'' True) []
   \<and> start (napp_on_x ''a.on_x'' True) [] = Returns () []
   \<and> shutdown (napp_on_x ''a.on_x'' True) [] = Returns () []
   \<and> table_after (load_napp napps_dir ''kytos/a'' started)
       = (None, [(''kyco/core.connection.new'', [New_connection]),
                 (''x'', [NApp_method ''a.on_x''])])
   \<and> table_after (and_then (and_then (load_napp napps_dir ''kytos/a'' started)
                               (unload_napp ''kytos/a''))
                               (load_napp napps_dir ''kytos/a''))
       = (None, [(''kyco/core.connection.new'', [New_connection]),
                 (''x'', [NApp_method ''a.on_x''])])"
proof -
  have h: "distinct (map fst (napp_listeners (napp_on_x ''a.on_x'' True)))"
    "fresh_for (events_listeners started) (napp_listeners (napp_on_x ''a.on_x'' True))"
    "napps_dir ''kytos/a'' (world started) = Returns (napp_on_x ''a.on_x'' True) []"
    "start (napp_on_x ''a.on_x'' True) [] = Returns () []"
    "shutdown (napp_on_x ''a.on_x'' True) [] = Returns () []"
    "napps_dir ''kytos/a'' [] = Returns (napp_on_x ''a.on_x'' True) []"
    "napp_listeners (napp_on_x ''a.on_x'' True) = napp_listeners (napp_on_x ''a.on_x'' True)"
    by (simp_all add: napp_defs fresh_for_def)
  from reload_restores_table
         [where loader = napps_dir and napp_name = "''kytos/a''" and self = started,
          OF h(1) h(2) h(3) h(4) h(5) h(6) h(7) h(4)]
  obtain self1 self2 self3 where
    r: "load_napp napps_dir ''kytos/a'' started = Returns () self1"
       "unload_napp ''kytos/a'' self1 = Returns () self2"
       "load_napp napps_dir ''kytos/a'' self2 = Returns () self3"
       "events_listeners self3 = events_listeners self1"
    by blast
  have t: "table_after (load_napp napps_dir ''kytos/a'' started)
       = (None, [(''kyco/core.connection.new'', [New_connection]),
                 (''x'', [NApp_method ''a.on_x''])])"
    by (simp add: napp_defs)
  with r have "table_after (and_then (and_then (load_napp napps_dir ''kytos/a'' started)
                               (unload_napp ''kytos/a''))
                               (load_napp napps_dir ''kytos/a''))
       = (None, [(''kyco/core.connection.new'', [New_connection]),
                 (''x'', [NApp_method ''a.on_x''])])"
    by (simp add: and_then_def table_after_def)
  with h t show ?thesis by simp
qed

subsection \<open>Unloading an unknown NApp\<close>

text \<open>
  Claim C10. \<^verbatim>\<open>unload_napp\<close> with a name that is not in the NApp registry raises
  \<^verbatim>\<open>KeyError\<close> at its first statement: the state at the exception is the state before the
  call, registry and listener table included.
\<close>

theorem unload_napp_unknown:
  "napps self napp_name = None \<Longrightarrow> unload_napp napp_name self = Raises KeyError self"
  by (simp add: unload_napp_def)

theorem unload_napp_unknown_witness:
  "napps one_switch ''kytos/of_core'' = None
   \<and> unload_napp ''kytos/of_core'' one_switch = Raises KeyError one_switch"
  using unload_napp_unknown [of one_switch "''kytos/of_core''"]
  by (simp add: one_switch_def Controller_init_def)

end
